theory Spec2Isabelle
  imports Main "HOL-Library.Char_ord" "HOL-Library.List_Lexorder" "HOL-Library.Sublist"
begin

section \<open>Strings as Python has them\<close>

text \<open>
  A Python \<open>str\<close> is modelled as a \<open>string\<close>, one \<open>char\<close> per code point; the model
  therefore covers texts whose code points are below 256. Errors raised by the script or
  by the library functions it calls are values of \<open>error\<close>.
\<close>

datatype error = ValueError string | OSError string

text \<open>\<open>s in t\<close> on strings: \<open>s\<close> occurs in \<open>t\<close> as a contiguous run.\<close>

fun is_in :: "string \<Rightarrow> string \<Rightarrow> bool" where
  "is_in s [] = (s = [])"
| "is_in s (c # cs) = (prefix s (c # cs) \<or> is_in s cs)"

text \<open>\<open>s.split(c)\<close> for a one-character separator: never an empty list.\<close>

fun split_chr :: "char \<Rightarrow> string \<Rightarrow> string list" where
  "split_chr c [] = [[]]"
| "split_chr c (x # xs) =
     (if x = c then [] # split_chr c xs
      else (case split_chr c xs of [] \<Rightarrow> [[x]] | y # ys \<Rightarrow> (x # y) # ys))"

text \<open>\<open>s.lstrip('/')\<close>.\<close>

definition lstrip_slash :: "string \<Rightarrow> string" where
  "lstrip_slash s = dropWhile (\<lambda>c. c = CHR ''/'') s"

section \<open>The library's URL parser\<close>

text \<open>
  \<open>urlparse(url).path\<close> of Python's \<open>urllib.parse\<close>, the only component the script
  reads. The steps are those of \<open>urlsplit\<close> followed by \<open>urlparse\<close>'s splitting of the
  parameters of the last path segment. Three things differ between releases of the library
  or need the Unicode database, and are taken as parameters:
  \<^item> \<open>bracket_check\<close>: what the library says of an authority that holds both square
    brackets (\<open>None\<close> when it accepts it, the message of the \<open>ValueError\<close> otherwise);
  \<^item> \<open>nfkc_check\<close>: what \<open>_checknetloc\<close> says of a non-empty authority that is not ASCII
    (its NFKC normal form must not bring in one of \<open>/?#@:\<close>);
  \<^item> \<open>rtsps_params\<close>: whether the scheme \<open>rtsps\<close> is in \<open>uses_params\<close>.
\<close>

record urllib =
  bracket_check :: "string \<Rightarrow> string option"
  nfkc_check :: "string \<Rightarrow> string option"
  rtsps_params :: bool

definition c0_control_or_space :: "char \<Rightarrow> bool" where
  "c0_control_or_space c = ((of_char c :: nat) \<le> 32)"

definition unsafe_url_byte :: "char \<Rightarrow> bool" where
  "unsafe_url_byte c = (c = CHR 0x09 \<or> c = CHR 0x0D \<or> c = CHR 0x0A)"

definition is_ascii :: "char \<Rightarrow> bool" where
  "is_ascii c = ((of_char c :: nat) < 128)"

definition ascii_upper :: "char \<Rightarrow> bool" where
  "ascii_upper c = (65 \<le> (of_char c :: nat) \<and> (of_char c :: nat) \<le> 90)"

definition ascii_lower :: "char \<Rightarrow> bool" where
  "ascii_lower c = (97 \<le> (of_char c :: nat) \<and> (of_char c :: nat) \<le> 122)"

definition ascii_digit :: "char \<Rightarrow> bool" where
  "ascii_digit c = (48 \<le> (of_char c :: nat) \<and> (of_char c :: nat) \<le> 57)"

definition scheme_char :: "char \<Rightarrow> bool" where
  "scheme_char c = (ascii_lower c \<or> ascii_upper c \<or> ascii_digit c
                    \<or> c = CHR ''+'' \<or> c = CHR ''-'' \<or> c = CHR ''.'')"

definition to_lower :: "char \<Rightarrow> char" where
  "to_lower c = (if ascii_upper c then char_of ((of_char c :: nat) + 32) else c)"

text \<open>The schemes of \<open>uses_params\<close> that every release has.\<close>

definition uses_params :: "string list" where
  "uses_params = ['''', ''ftp'', ''hdl'', ''prospero'', ''http'', ''imap'',
                  ''https'', ''shttp'', ''rtsp'', ''rtspu'', ''sip'',
                  ''sips'', ''mms'', ''sftp'', ''tel'']"

text \<open>The scheme and what follows its colon; no scheme leaves the text as it is.\<close>

definition split_scheme :: "string \<Rightarrow> string \<times> string" where
  "split_scheme url =
     (let pre = takeWhile (\<lambda>c. c \<noteq> CHR '':'') url;
          rest = dropWhile (\<lambda>c. c \<noteq> CHR '':'') url
      in if rest \<noteq> [] \<and> pre \<noteq> []
            \<and> (ascii_lower (hd pre) \<or> ascii_upper (hd pre))
            \<and> list_all scheme_char pre
         then (map to_lower pre, tl rest)
         else ('''', url))"

definition netloc_delim :: "char \<Rightarrow> bool" where
  "netloc_delim c = (c = CHR ''/'' \<or> c = CHR ''?'' \<or> c = CHR ''#'')"

text \<open>\<open>_splitnetloc(url, 2)\<close> with the checks on square brackets that follow it.\<close>

definition split_netloc :: "urllib \<Rightarrow> string \<Rightarrow> error + (string \<times> string)" where
  "split_netloc lib url =
     (if take 2 url = ''//'' then
        (let netloc = takeWhile (\<lambda>c. \<not> netloc_delim c) (drop 2 url);
             rest = dropWhile (\<lambda>c. \<not> netloc_delim c) (drop 2 url);
             lb = (CHR ''['' \<in> set netloc);
             rb = (CHR '']'' \<in> set netloc)
         in if (lb \<and> \<not> rb) \<or> (rb \<and> \<not> lb) then Inl (ValueError ''Invalid IPv6 URL'')
            else if lb \<and> rb then
              (case bracket_check lib netloc of
                 Some msg \<Rightarrow> Inl (ValueError msg)
               | None \<Rightarrow> Inr (netloc, rest))
            else Inr (netloc, rest))
      else Inr ('''', url))"

text \<open>\<open>_checknetloc(netloc)\<close>: nothing to check for an empty or an ASCII authority.\<close>

definition check_netloc :: "urllib \<Rightarrow> string \<Rightarrow> string option" where
  "check_netloc lib netloc =
     (if netloc = [] \<or> list_all is_ascii netloc then None else nfkc_check lib netloc)"

text \<open>\<open>_splitparams(url)[0]\<close>: the last segment loses everything from its first \<open>;\<close>.\<close>

definition splitparams_path :: "string \<Rightarrow> string" where
  "splitparams_path url =
     (if CHR ''/'' \<in> set url
      then rev (dropWhile (\<lambda>c. c \<noteq> CHR ''/'') (rev url))
           @ takeWhile (\<lambda>c. c \<noteq> CHR '';'') (rev (takeWhile (\<lambda>c. c \<noteq> CHR ''/'') (rev url)))
      else takeWhile (\<lambda>c. c \<noteq> CHR '';'') url)"

definition urlparse_path :: "urllib \<Rightarrow> string \<Rightarrow> error + string" where
  "urlparse_path lib url0 =
     (let url1 = filter (\<lambda>c. \<not> unsafe_url_byte c) (dropWhile c0_control_or_space url0);
          (scheme, url2) = split_scheme url1
      in case split_netloc lib url2 of
           Inl e \<Rightarrow> Inl e
         | Inr (netloc, url3) \<Rightarrow>
             (let url4 = takeWhile (\<lambda>c. c \<noteq> CHR ''#'') url3;
                  url5 = takeWhile (\<lambda>c. c \<noteq> CHR ''?'') url4
              in case check_netloc lib netloc of
                   Some msg \<Rightarrow> Inl (ValueError msg)
                 | None \<Rightarrow>
                     if (scheme \<in> set uses_params \<or> (scheme = ''rtsps'' \<and> rtsps_params lib))
                        \<and> CHR '';'' \<in> set url5
                     then Inr (splitparams_path url5)
                     else Inr url5))"




text \<open>A library that accepts what it is asked about, and one that rejects it.\<close>

definition lax_lib :: urllib where
  "lax_lib = \<lparr>bracket_check = (\<lambda>_. None), nfkc_check = (\<lambda>_. None), rtsps_params = True\<rparr>"

definition strict_lib :: urllib where
  "strict_lib = \<lparr>bracket_check = (\<lambda>_. Some ''Invalid IPv6 URL''),
                  nfkc_check = (\<lambda>_. Some ''netloc contains invalid characters under NFKC normalization''),
                  rtsps_params = False\<rparr>"

section \<open>The path mapper\<close>

text \<open>\<open>parts[-1].split('?')[0]\<close> of the source, for \<open>parts = path.split('/')\<close>.\<close>

definition filename_of :: "string \<Rightarrow> string" where
  "filename_of path = hd (split_chr (CHR ''?'') (last (split_chr (CHR ''/'') path)))"

definition url_to_local_path :: "urllib \<Rightarrow> string \<Rightarrow> error + string" where
  "url_to_local_path lib url =
     (case urlparse_path lib url of
        Inl e \<Rightarrow> Inl e
      | Inr parsed_path \<Rightarrow>
          (let path = lstrip_slash parsed_path;
               fallback = Inr (''assets/'' @ filename_of path)
           in if is_in ''website-files.com'' url then
                (let parts = split_chr (CHR ''/'') path
                 in if 2 \<le> length parts then
                      (if is_in ''/css/'' path then Inr (''assets/css/'' @ filename_of path)
                       else if is_in ''/js/'' path then Inr (''assets/js/'' @ filename_of path)
                       else Inr (''assets/images/'' @ filename_of path))
                    else fallback)
              else if is_in ''cloudfront.net'' url then Inr (''assets/js/'' @ filename_of path)
              else fallback))"

text \<open>
  The parsed path of a URL that starts with one of the two CDN host prefixes, as a function
  of the text after the prefix.
\<close>

definition path_after_host :: "string \<Rightarrow> string" where
  "path_after_host rest =
     (let u5 = takeWhile (\<lambda>c. c \<noteq> CHR ''?'') (takeWhile (\<lambda>c. c \<noteq> CHR ''#'')
                 (CHR ''/'' # filter (\<lambda>c. \<not> unsafe_url_byte c) rest))
      in if CHR '';'' \<in> set u5 then splitparams_path u5 else u5)"

section \<open>The URL extractor\<close>

text \<open>
  The class \<open>\s\<close> of Python's \<open>re\<close> on a \<open>str\<close>, restricted to code points below 256, and
  the characters at which the pattern \<open>[^"\s\)>]+\<close> stops.
\<close>

definition py_space :: "char \<Rightarrow> bool" where
  "py_space c = ((of_char c :: nat) \<in> {9, 10, 11, 12, 13, 28, 29, 30, 31, 32, 133, 160})"

definition url_stop :: "char \<Rightarrow> bool" where
  "url_stop c = (c = CHR 0x22 \<or> py_space c \<or> c = CHR '')'' \<or> c = CHR ''>'')"

definition primary_host :: string where
  "primary_host = ''https://cdn.prod.website-files.com/''"

definition secondary_host :: string where
  "secondary_host = ''https://d3e54v103j8qbb.cloudfront.net/''"

text \<open>
  A match of \<open>h[^"\s\)>]+\<close> at the start of \<open>s\<close>, for a literal \<open>h\<close>: the literal and the
  longest run of characters that are no stop character, at least one.
\<close>

definition match_at :: "string \<Rightarrow> string \<Rightarrow> string option" where
  "match_at h s =
     (if prefix h s then
        (case takeWhile (\<lambda>c. \<not> url_stop c) (drop (length h) s) of
           [] \<Rightarrow> None
         | c # cs \<Rightarrow> Some (h @ c # cs))
      else None)"

text \<open>
  \<open>re.findall\<close> for such a pattern: scan from the left, report a match and go on behind
  it, or move one character on.
\<close>

function findall :: "string \<Rightarrow> string \<Rightarrow> string list" where
  "findall h [] = []"
| "findall h (c # cs) =
     (case match_at h (c # cs) of
        Some m \<Rightarrow> m # findall h (drop (length m) (c # cs))
      | None \<Rightarrow> findall h cs)"
  by pat_completeness auto
termination
proof (relation "measure (\<lambda>(h, s). length s)")
  show "wf (measure (\<lambda>(h, s). length s))" by simp
next
  fix h c cs m
  assume "match_at h (c # cs) = Some m"
  then have "m \<noteq> []" by (auto simp: match_at_def split: if_splits list.splits)
  then show "((h, drop (length m) (c # cs)), (h, c # cs)) \<in> measure (\<lambda>(h, s). length s)"
    by (cases m) auto
next
  fix h c cs
  show "((h, cs), (h, c # cs)) \<in> measure (\<lambda>(h, s). length s)" by simp
qed

definition extract_cdn_urls :: "string \<Rightarrow> string set" where
  "extract_cdn_urls html_content =
     set (findall primary_host html_content) \<union> set (findall secondary_host html_content)"

section \<open>The file system, the network and the console\<close>

text \<open>
  What the script prints, one constructor per \<open>print\<close> of the source; numbers are kept as
  numbers.
\<close>

datatype line =
    Found_line nat
  | Ok_line string nat
  | Failed_line string string
  | Rule_line
  | Summary_line nat nat
  | Output_dir_line string
  | Saved_line string

text \<open>
  The effects of a run, in the order they happen: the directories \<open>os.makedirs\<close> was
  asked for and made, the files written with their contents (a later entry for the same
  path overwrites an earlier one), the URLs requested, and the lines printed.
\<close>

record sys_state =
  dirs :: "string list"
  files :: "(string \<times> string) list"
  requests :: "string list"
  console :: "line list"

text \<open>
  The environment of a run. \<open>html_file\<close> is what opening and reading \<open>index.html\<close> gives;
  \<open>http_get\<close> gives, for a URL, the body of a successful response or the text of the
  exception of \<open>requests.get\<close> and \<open>raise_for_status\<close> (network error, timeout, bad
  status); \<open>makedirs_fault\<close> and \<open>write_fault\<close> say, in a given state, whether creating a
  directory or opening and writing a file fails, and with what message.
\<close>

record world =
  html_file :: "error + string"
  http_get :: "string \<Rightarrow> string + string"
  makedirs_fault :: "sys_state \<Rightarrow> string \<Rightarrow> string option"
  write_fault :: "sys_state \<Rightarrow> string \<Rightarrow> string option"
  library :: urllib

definition HTML_FILE :: string where
  "HTML_FILE = ''index.html''"

definition OUTPUT_DIR :: string where
  "OUTPUT_DIR = ''breathscape-site''"

definition print_line :: "sys_state \<Rightarrow> line \<Rightarrow> sys_state" where
  "print_line st l = st\<lparr>console := console st @ [l]\<rparr>"

definition makedirs :: "world \<Rightarrow> sys_state \<Rightarrow> string \<Rightarrow> error + sys_state" where
  "makedirs w st d =
     (case makedirs_fault w st d of
        Some msg \<Rightarrow> Inl (OSError msg)
      | None \<Rightarrow> Inr (st\<lparr>dirs := dirs st @ [d]\<rparr>))"

definition write_file :: "world \<Rightarrow> sys_state \<Rightarrow> string \<Rightarrow> string \<Rightarrow> string + sys_state" where
  "write_file w st p content =
     (case write_fault w st p of
        Some msg \<Rightarrow> Inl msg
      | None \<Rightarrow> Inr (st\<lparr>files := files st @ [(p, content)]\<rparr>))"

text \<open>\<open>os.path.join\<close> and \<open>os.path.dirname\<close> for POSIX paths.\<close>

definition path_join :: "string \<Rightarrow> string \<Rightarrow> string" where
  "path_join a b =
     (if b \<noteq> [] \<and> hd b = CHR ''/'' then b
      else if a = [] \<or> last a = CHR ''/'' then a @ b
      else a @ ''/'' @ b)"

definition dirname :: "string \<Rightarrow> string" where
  "dirname p =
     (let head = rev (dropWhile (\<lambda>c. c \<noteq> CHR ''/'') (rev p))
      in if head \<noteq> [] \<and> \<not> list_all (\<lambda>c. c = CHR ''/'') head
         then rev (dropWhile (\<lambda>c. c = CHR ''/'') (rev head))
         else head)"

section \<open>The asset fetcher\<close>

text \<open>
  \<open>download_asset\<close>: the directory is made before the \<open>try\<close>, so its failure is an
  exception of the call (\<open>Inl\<close> on the left of the pair); the request and the write are
  inside the \<open>try\<close>, so their failure is the outcome \<open>(False, str(e))\<close>, here
  \<open>Inr (Inl msg)\<close>; success is \<open>(True, len(response.content))\<close>, here \<open>Inr (Inr n)\<close>.
\<close>

definition download_asset ::
  "world \<Rightarrow> sys_state \<Rightarrow> string \<Rightarrow> string \<Rightarrow> string \<Rightarrow> (error + (string + nat)) \<times> sys_state" where
  "download_asset w st url local_path output_dir =
     (let full_path = path_join output_dir local_path
      in case makedirs w st (dirname full_path) of
           Inl e \<Rightarrow> (Inl e, st)
         | Inr st1 \<Rightarrow>
             (let st2 = st1\<lparr>requests := requests st1 @ [url]\<rparr>
              in case http_get w url of
                   Inl msg \<Rightarrow> (Inr (Inl msg), st2)
                 | Inr content \<Rightarrow>
                     (case write_file w st2 full_path content of
                        Inl msg \<Rightarrow> (Inr (Inl msg), st2)
                      | Inr st3 \<Rightarrow> (Inr (Inr (length content)), st3))))"

section \<open>The rewriter and the driver\<close>

text \<open>
  \<open>s.replace(old, new)\<close>: every occurrence found from the left, without overlap; an
  empty \<open>old\<close> puts \<open>new\<close> before each character and at the end.
\<close>

function py_replace :: "string \<Rightarrow> string \<Rightarrow> string \<Rightarrow> string" where
  "py_replace old new [] = (if old = [] then new else [])"
| "py_replace old new (c # cs) =
     (if old = [] then new @ c # py_replace old new cs
      else if prefix old (c # cs) then new @ py_replace old new (drop (length old) (c # cs))
      else c # py_replace old new cs)"
  by pat_completeness auto
termination
  by (relation "measure (\<lambda>(old, new, s). length s)") (auto simp: neq_Nil_conv)

text \<open>
  A \<open>dict\<close> keeps its keys in insertion order: assigning to a key that is present
  changes its value in place, assigning to a new key appends the entry.
\<close>

definition dict_set :: "(string \<times> string) list \<Rightarrow> string \<Rightarrow> string \<Rightarrow> (string \<times> string) list" where
  "dict_set m k v =
     (if k \<in> fst ` set m then map (\<lambda>(k', v'). if k' = k then (k', v) else (k', v')) m
      else m @ [(k, v)])"

text \<open>One iteration of the download loop of \<open>main\<close>, and the loop.\<close>

definition loop_step ::
  "world \<Rightarrow> string \<Rightarrow> (string \<times> string) list \<times> nat \<times> sys_state
     \<Rightarrow> (error + ((string \<times> string) list \<times> nat)) \<times> sys_state" where
  "loop_step w url acc =
     (case acc of (url_mapping, total_size, st) \<Rightarrow>
        (case url_to_local_path (library w) url of
           Inl e \<Rightarrow> (Inl e, st)
         | Inr local_path \<Rightarrow>
             (case download_asset w st url local_path OUTPUT_DIR of
                (Inl e, st') \<Rightarrow> (Inl e, st')
              | (Inr (Inr result), st') \<Rightarrow>
                  (Inr (dict_set url_mapping url local_path, total_size + result),
                   print_line st' (Ok_line local_path result))
              | (Inr (Inl result), st') \<Rightarrow>
                  (Inr (url_mapping, total_size),
                   print_line st' (Failed_line (take 60 url) result)))))"

fun download_loop ::
  "world \<Rightarrow> string list \<Rightarrow> (string \<times> string) list \<times> nat \<times> sys_state
     \<Rightarrow> (error + ((string \<times> string) list \<times> nat)) \<times> sys_state" where
  "download_loop w [] (url_mapping, total_size, st) = (Inr (url_mapping, total_size), st)"
| "download_loop w (url # urls) (url_mapping, total_size, st) =
     (case loop_step w url (url_mapping, total_size, st) of
        (Inl e, st') \<Rightarrow> (Inl e, st')
      | (Inr (url_mapping', total_size'), st') \<Rightarrow>
          download_loop w urls (url_mapping', total_size', st'))"

text \<open>The substitution pass: one \<open>replace\<close> per entry, in the order of the dictionary.\<close>

definition rewrite_html :: "string \<Rightarrow> (string \<times> string) list \<Rightarrow> string" where
  "rewrite_html html url_mapping =
     foldl (\<lambda>new_html (old_url, new_path). py_replace old_url new_path new_html) html url_mapping"

text \<open>
  \<open>main\<close>. An exception that nothing catches ends the run with \<open>Inl\<close> and the state
  reached so far; a run that completes gives the final values of \<open>url_mapping\<close>,
  \<open>total_size\<close> and \<open>new_html\<close>.
\<close>

definition main ::
  "world \<Rightarrow> sys_state \<Rightarrow> (error + ((string \<times> string) list \<times> nat \<times> string)) \<times> sys_state" where
  "main w st0 =
     (case html_file w of
        Inl e \<Rightarrow> (Inl e, st0)
      | Inr html \<Rightarrow>
          (let urls = extract_cdn_urls html;
               st1 = print_line st0 (Found_line (card urls))
           in case makedirs w st1 OUTPUT_DIR of
                Inl e \<Rightarrow> (Inl e, st1)
              | Inr st2 \<Rightarrow>
                  (case download_loop w (sorted_list_of_set urls) ([], 0, st2) of
                     (Inl e, st3) \<Rightarrow> (Inl e, st3)
                   | (Inr (url_mapping, total_size), st3) \<Rightarrow>
                       (let new_html = rewrite_html html url_mapping;
                            output_html = path_join OUTPUT_DIR ''index.html''
                        in case write_file w st3 output_html new_html of
                             Inl msg \<Rightarrow> (Inl (OSError msg), st3)
                           | Inr st4 \<Rightarrow>
                               (Inr (url_mapping, total_size, new_html),
                                print_line
                                  (print_line
                                    (print_line
                                      (print_line st4 Rule_line)
                                      (Summary_line (length url_mapping) total_size))
                                    (Output_dir_line OUTPUT_DIR))
                                  (Saved_line output_html))))))"

section \<open>Bookkeeping for the proofs and sample runs\<close>

text \<open>
  A successful download is recorded as the triple of the URL, its local path and the body
  written; the four functions below read such a record.
\<close>

definition ok_entry :: "string \<times> string \<times> string \<Rightarrow> string \<times> string" where
  "ok_entry x = (case x of (u, p, c) \<Rightarrow> (u, p))"
definition ok_write :: "string \<times> string \<times> string \<Rightarrow> string \<times> string" where
  "ok_write x = (case x of (u, p, c) \<Rightarrow> (path_join OUTPUT_DIR p, c))"
definition ok_size :: "string \<times> string \<times> string \<Rightarrow> nat" where
  "ok_size x = (case x of (u, p, c) \<Rightarrow> length c)"
definition ok_good :: "world \<Rightarrow> string \<times> string \<times> string \<Rightarrow> bool" where
  "ok_good w x = (case x of (u, p, c) \<Rightarrow>
      url_to_local_path (library w) u = Inr p \<and> http_get w u = Inr c)"

text \<open>A state in which nothing has happened yet, and an environment without faults.\<close>

definition quiet_state :: sys_state where
  "quiet_state = \<lparr>dirs = [], files = [], requests = [], console = []\<rparr>"

definition demo_world :: "(error + string) \<Rightarrow> (string \<Rightarrow> string + string) \<Rightarrow> world" where
  "demo_world f g = \<lparr>html_file = f, http_get = g, makedirs_fault = (\<lambda>_ _. None),
                      write_fault = (\<lambda>_ _. None), library = lax_lib\<rparr>"

text \<open>
  A page with a stylesheet and an image of the primary CDN; the image is answered with an
  error status.
\<close>

definition demo_html :: string where
  "demo_html = ''<link href='' @ [CHR 0x22] @ ''https://cdn.prod.website-files.com/s/css/a.css''
     @ [CHR 0x22] @ ''><img src='' @ [CHR 0x22] @ ''https://cdn.prod.website-files.com/s/b.png''
     @ [CHR 0x22] @ ''>''"

definition demo_get :: "string \<Rightarrow> string + string" where
  "demo_get u = (if u = ''https://cdn.prod.website-files.com/s/b.png''
                 then Inl ''404 Client Error'' else Inr ''body'')"

definition demo_new_html :: string where
  "demo_new_html = ''<link href='' @ [CHR 0x22] @ ''assets/css/a.css''
     @ [CHR 0x22] @ ''><img src='' @ [CHR 0x22] @ ''https://cdn.prod.website-files.com/s/b.png''
     @ [CHR 0x22] @ ''>''"

(*DEFS_END*)

section \<open>Facts about the string helpers\<close>

lemmas urlparse_defs = urlparse_path_def split_scheme_def split_netloc_def check_netloc_def
  is_ascii_def c0_control_or_space_def unsafe_url_byte_def scheme_char_def ascii_lower_def ascii_upper_def
  ascii_digit_def to_lower_def uses_params_def netloc_delim_def splitparams_path_def

lemmas mapper_defs = url_to_local_path_def lstrip_slash_def filename_of_def

lemma split_chr_nonempty: "split_chr c s \<noteq> []"
  by (induction s) (auto split: list.splits)

lemma hd_split_chr: "hd (split_chr c s) = takeWhile (\<lambda>x. x \<noteq> c) s"
  by (induction s) (auto split: list.splits simp: split_chr_nonempty)

lemma length_split_chr: "length (split_chr c s) = Suc (length (filter (\<lambda>x. x = c) s))"
  by (induction s) (auto split: list.splits simp: split_chr_nonempty)

lemma split_chr_two: "2 \<le> length (split_chr c s) \<longleftrightarrow> c \<in> set s"
proof -
  have "1 \<le> length (filter (\<lambda>x. x = c) s) \<longleftrightarrow> c \<in> set s"
    by (induction s) auto
  then show ?thesis by (simp add: length_split_chr)
qed

lemma last_split_chr_no_sep: "c \<notin> set (last (split_chr c s))"
  by (induction s) (auto split: list.splits simp: split_chr_nonempty)

lemma set_tl_subset: "set (tl xs) \<subseteq> set xs"
  by (cases xs) auto

lemma set_dropWhile_subset: "set (dropWhile P xs) \<subseteq> set xs"
  by (induction xs) auto

section \<open>Facts about the URL parser\<close>

lemma split_scheme_set: "set (snd (split_scheme u)) \<subseteq> set u"
proof -
  have "set (tl (dropWhile (\<lambda>c. c \<noteq> CHR '':'') u)) \<subseteq> set u"
    using set_tl_subset set_dropWhile_subset by fast
  then show ?thesis by (simp add: split_scheme_def Let_def)
qed




lemma urlparse_path_primary:
  "urlparse_path lib (''https://cdn.prod.website-files.com/'' @ rest) = Inr (path_after_host rest)"
proof -
  define r where "r = filter (\<lambda>c. \<not> unsafe_url_byte c) rest"
  have s1: "filter (\<lambda>c. \<not> unsafe_url_byte c)
              (dropWhile c0_control_or_space (''https://cdn.prod.website-files.com/'' @ rest))
            = ''https://cdn.prod.website-files.com/'' @ r"
    by (simp add: c0_control_or_space_def unsafe_url_byte_def r_def)
  have ss: "split_scheme (''https://cdn.prod.website-files.com/'' @ r)
            = (''https'', ''//cdn.prod.website-files.com/'' @ r)"
    by (simp add: split_scheme_def scheme_char_def ascii_lower_def ascii_upper_def
        ascii_digit_def to_lower_def)
  have sn: "split_netloc lib (''//cdn.prod.website-files.com/'' @ r)
            = Inr (''cdn.prod.website-files.com'', CHR ''/'' # r)"
    by (simp add: split_netloc_def netloc_delim_def)
  have cn: "check_netloc lib ''cdn.prod.website-files.com'' = None"
    by (simp add: check_netloc_def is_ascii_def)
  have up: "''https'' \<in> set uses_params" by (simp add: uses_params_def)
  show ?thesis
    unfolding urlparse_path_def path_after_host_def Let_def s1 ss prod.case sn sum.case cn
      option.case r_def [symmetric]
    using up by simp
qed

lemma urlparse_path_secondary:
  "urlparse_path lib (''https://d3e54v103j8qbb.cloudfront.net/'' @ rest)
   = Inr (path_after_host rest)"
proof -
  define r where "r = filter (\<lambda>c. \<not> unsafe_url_byte c) rest"
  have s1: "filter (\<lambda>c. \<not> unsafe_url_byte c)
              (dropWhile c0_control_or_space (''https://d3e54v103j8qbb.cloudfront.net/'' @ rest))
            = ''https://d3e54v103j8qbb.cloudfront.net/'' @ r"
    by (simp add: c0_control_or_space_def unsafe_url_byte_def r_def)
  have ss: "split_scheme (''https://d3e54v103j8qbb.cloudfront.net/'' @ r)
            = (''https'', ''//d3e54v103j8qbb.cloudfront.net/'' @ r)"
    by (simp add: split_scheme_def scheme_char_def ascii_lower_def ascii_upper_def
        ascii_digit_def to_lower_def)
  have sn: "split_netloc lib (''//d3e54v103j8qbb.cloudfront.net/'' @ r)
            = Inr (''d3e54v103j8qbb.cloudfront.net'', CHR ''/'' # r)"
    by (simp add: split_netloc_def netloc_delim_def)
  have cn: "check_netloc lib ''d3e54v103j8qbb.cloudfront.net'' = None"
    by (simp add: check_netloc_def is_ascii_def)
  have up: "''https'' \<in> set uses_params" by (simp add: uses_params_def)
  show ?thesis
    unfolding urlparse_path_def path_after_host_def Let_def s1 ss prod.case sn sum.case cn
      option.case r_def [symmetric]
    using up by simp
qed






section \<open>The path mapper: examples, routing and totality\<close>

text \<open>
  Claim C2. The four examples of the path mapper: a stylesheet of the primary CDN with a
  query string goes to \<open>assets/css/main.css\<close>, an image of the primary CDN to
  \<open>assets/images/logo.png\<close>, the script of the secondary CDN to
  \<open>assets/js/jquery-3.5.1.min.js\<close>, and a file of an unrecognised host to \<open>assets/bar.pdf\<close>,
  whatever the release of the library.
\<close>

theorem path_mapper_examples:
  "url_to_local_path lib ''https://cdn.prod.website-files.com/abc123/css/main.css?v=2''
     = Inr ''assets/css/main.css''
   \<and> url_to_local_path lib ''https://cdn.prod.website-files.com/abc123/img/logo.png''
     = Inr ''assets/images/logo.png''
   \<and> url_to_local_path lib ''https://d3e54v103j8qbb.cloudfront.net/jquery-3.5.1.min.js''
     = Inr ''assets/js/jquery-3.5.1.min.js''
   \<and> url_to_local_path lib ''https://example.com/foo/bar.pdf'' = Inr ''assets/bar.pdf''"
  by (simp add: urlparse_defs mapper_defs)

theorem path_mapper_examples_witness:
  "url_to_local_path strict_lib ''https://example.com/foo/bar.pdf'' = Inr ''assets/bar.pdf''"
  using path_mapper_examples [of strict_lib] by simp

text \<open>
  Claim C5, as stated, fails: a URL of the primary CDN whose path is a single segment is
  not routed to \<open>assets/images/\<close>. The source guards the three primary-CDN routes with
  \<open>len(parts) >= 2\<close>, and a one-segment path falls through to the generic
  \<open>assets/<filename>\<close>.
\<close>

theorem images_route_counterexample:
  "is_in ''website-files.com'' ''https://cdn.prod.website-files.com/logo.png''
   \<and> \<not> is_in ''/css/'' ''logo.png'' \<and> \<not> is_in ''/js/'' ''logo.png''
   \<and> urlparse_path lax_lib ''https://cdn.prod.website-files.com/logo.png''
       = Inr ''/logo.png''
   \<and> url_to_local_path lax_lib ''https://cdn.prod.website-files.com/logo.png''
       = Inr ''assets/logo.png''
   \<and> url_to_local_path lax_lib ''https://cdn.prod.website-files.com/logo.png''
       \<noteq> Inr ''assets/images/logo.png''"
  by (simp add: urlparse_defs mapper_defs)

text \<open>
  Claim C5, amended: for every URL whose text contains \<open>website-files.com\<close> (the source's
  test for the primary CDN family), whose parsed path, leading slashes removed, has at least
  two \<open>/\<close>-delimited segments and contains neither \<open>/css/\<close> nor \<open>/js/\<close>, the mapper
  returns \<open>assets/images/<filename>\<close>, the filename being the last \<open>/\<close>-delimited segment
  of that path with everything from \<open>?\<close> onward discarded.
\<close>

theorem images_route:
  assumes "is_in ''website-files.com'' url"
    and "urlparse_path lib url = Inr parsed_path"
    and "path = lstrip_slash parsed_path"
    and "2 \<le> length (split_chr (CHR ''/'') path)"
    and "\<not> is_in ''/css/'' path" and "\<not> is_in ''/js/'' path"
  shows "url_to_local_path lib url
         = Inr (''assets/images/''
                @ takeWhile (\<lambda>c. c \<noteq> CHR ''?'') (last (split_chr (CHR ''/'') path)))"
  using assms by (simp add: url_to_local_path_def filename_of_def hd_split_chr)

theorem images_route_witness:
  "url_to_local_path lax_lib ''https://cdn.prod.website-files.com/abc123/img/logo.png?x=1''
   = Inr ''assets/images/logo.png''"
proof -
  have p: "urlparse_path lax_lib ''https://cdn.prod.website-files.com/abc123/img/logo.png?x=1''
           = Inr ''/abc123/img/logo.png''"
    by (simp add: urlparse_defs)
  have "url_to_local_path lax_lib
          ''https://cdn.prod.website-files.com/abc123/img/logo.png?x=1''
        = Inr (''assets/images/'' @ takeWhile (\<lambda>c. c \<noteq> CHR ''?'')
                 (last (split_chr (CHR ''/'') (lstrip_slash ''/abc123/img/logo.png''))))"
    by (rule images_route [OF _ p refl]) (simp_all add: lstrip_slash_def)
  then show ?thesis by (simp add: lstrip_slash_def)
qed







section \<open>Facts about the fetcher and the download loop\<close>

lemma dict_set_new: "k \<notin> fst ` set m \<Longrightarrow> dict_set m k v = m @ [(k, v)]"
  by (simp add: dict_set_def)

lemma download_asset_cases:
  assumes "download_asset w st url p out = (r, st')"
  shows "(\<exists>msg. r = Inl (OSError msg) \<and> st' = st
            \<and> makedirs_fault w st (dirname (path_join out p)) = Some msg)
       \<or> (\<exists>msg. r = Inr (Inl msg) \<and> files st' = files st \<and> requests st' = requests st @ [url]
            \<and> makedirs_fault w st (dirname (path_join out p)) = None
            \<and> (http_get w url = Inl msg
                \<or> (\<exists>c. http_get w url = Inr c
                      \<and> write_fault w (st\<lparr>dirs := dirs st @ [dirname (path_join out p)],
                                          requests := requests st @ [url]\<rparr>)
                           (path_join out p) = Some msg)))
       \<or> (\<exists>c. r = Inr (Inr (length c)) \<and> http_get w url = Inr c
            \<and> makedirs_fault w st (dirname (path_join out p)) = None
            \<and> files st' = files st @ [(path_join out p, c)]
            \<and> requests st' = requests st @ [url])"
  using assms
  by (auto simp: download_asset_def makedirs_def write_file_def Let_def
           split: option.splits sum.splits)

lemma loop_step_cases:
  assumes "loop_step w url (m, t, st) = (Inr (m', t'), st')"
  shows "(m' = m \<and> t' = t \<and> files st' = files st \<and> requests st' = requests st @ [url])
       \<or> (\<exists>p c. m' = dict_set m url p \<and> t' = t + length c
             \<and> files st' = files st @ [(path_join OUTPUT_DIR p, c)]
             \<and> requests st' = requests st @ [url]
             \<and> url_to_local_path (library w) url = Inr p \<and> http_get w url = Inr c)"
proof -
  from assms obtain p where p: "url_to_local_path (library w) url = Inr p"
    by (auto simp: loop_step_def split: sum.splits)
  obtain r st1 where d: "download_asset w st url p OUTPUT_DIR = (r, st1)"
    by (cases "download_asset w st url p OUTPUT_DIR")
  from download_asset_cases [OF d] assms p d show ?thesis
    by (auto simp: loop_step_def print_line_def split: sum.splits)
qed

lemma download_loop_trace:
  assumes "download_loop w urls (m, t, st) = (Inr (m', t'), st')"
    and "distinct urls" and "set urls \<inter> fst ` set m = {}"
  shows "\<exists>ok. m' = m @ map ok_entry ok
            \<and> files st' = files st @ map ok_write ok
            \<and> t' = t + sum_list (map ok_size ok)
            \<and> subseq (map fst ok) urls
            \<and> list_all (ok_good w) ok
            \<and> requests st' = requests st @ urls"
  using assms
proof (induction urls arbitrary: m t st)
  case Nil
  then have "m' = m @ map ok_entry [] \<and> files st' = files st @ map ok_write []
      \<and> t' = t + sum_list (map ok_size []) \<and> subseq (map fst ([] :: (string \<times> string \<times> string) list)) []
      \<and> list_all (ok_good w) [] \<and> requests st' = requests st @ []" by simp
  then show ?case by blast
next
  case (Cons url urls)
  from Cons.prems(1) obtain m1 t1 st1
    where step: "loop_step w url (m, t, st) = (Inr (m1, t1), st1)"
      and rest: "download_loop w urls (m1, t1, st1) = (Inr (m', t'), st')"
    by (auto split: prod.splits sum.splits)
  from Cons.prems have nin: "url \<notin> fst ` set m" and d: "distinct urls" and nu: "url \<notin> set urls"
    and disj: "set urls \<inter> fst ` set m = {}" by auto
  from loop_step_cases [OF step] show ?case
  proof (elim disjE conjE exE)
    assume e: "m1 = m" "t1 = t" "files st1 = files st" "requests st1 = requests st @ [url]"
    from Cons.IH [OF rest d] disj e obtain ok where
      ok: "m' = m @ map ok_entry ok" "files st' = files st @ map ok_write ok"
          "t' = t + sum_list (map ok_size ok)" "subseq (map fst ok) urls"
          "list_all (ok_good w) ok" "requests st' = requests st @ url # urls"
      by auto
    from ok(4) have "subseq (map fst ok) (url # urls)" by (rule list_emb_Cons)
    with ok show ?thesis by blast
  next
    fix p c
    assume e: "m1 = dict_set m url p" "t1 = t + length c"
      "files st1 = files st @ [(path_join OUTPUT_DIR p, c)]"
      "requests st1 = requests st @ [url]"
      "url_to_local_path (library w) url = Inr p" "http_get w url = Inr c"
    have m1: "m1 = m @ [(url, p)]" using e(1) nin by (simp add: dict_set_new)
    have "set urls \<inter> fst ` set m1 = {}" using disj nu m1 by auto
    from Cons.IH [OF rest d this] obtain ok where
      ok: "m' = m1 @ map ok_entry ok" "files st' = files st1 @ map ok_write ok"
          "t' = t1 + sum_list (map ok_size ok)" "subseq (map fst ok) urls"
          "list_all (ok_good w) ok" "requests st' = requests st1 @ urls"
      by auto
    let ?ok = "(url, p, c) # ok"
    have "m' = m @ map ok_entry ?ok" using ok(1) m1 by (simp add: ok_entry_def)
    moreover have "files st' = files st @ map ok_write ?ok" using ok(2) e(3) by (simp add: ok_write_def)
    moreover have "t' = t + sum_list (map ok_size ?ok)" using ok(3) e(2) by (simp add: ok_size_def)
    moreover have "subseq (map fst ?ok) (url # urls)" using ok(4) by simp
    moreover have "list_all (ok_good w) ?ok" using ok(5) e(5,6) by (simp add: ok_good_def)
    moreover have "requests st' = requests st @ url # urls" using ok(6) e(4) by simp
    ultimately show ?thesis by blast
  qed
qed

lemma download_loop_append:
  "download_loop w (xs @ ys) (m, t, st) =
     (case download_loop w xs (m, t, st) of
        (Inl e, st') \<Rightarrow> (Inl e, st')
      | (Inr (m', t'), st') \<Rightarrow> download_loop w ys (m', t', st'))"
  by (induction xs arbitrary: m t st) (auto split: prod.splits sum.splits)

lemma finite_extract: "finite (extract_cdn_urls html)"
  by (simp add: extract_cdn_urls_def)

lemma subseq_set_mono: "subseq xs ys \<Longrightarrow> set xs \<subseteq> set ys"
  by (induction rule: list_emb.induct) auto

lemma subseq_distinct_mono: "subseq xs ys \<Longrightarrow> distinct ys \<Longrightarrow> distinct xs"
proof (induction rule: list_emb.induct)
  case (list_emb_Cons2 x y xs ys)
  then show ?case using subseq_set_mono [of xs ys] by auto
qed auto

lemma main_completed:
  assumes "main w st = (Inr (m, total_size, new_html), st')"
  shows "\<exists>html st2 st3. html_file w = Inr html
      \<and> files st2 = files st
      \<and> download_loop w (sorted_list_of_set (extract_cdn_urls html)) ([], 0, st2)
          = (Inr (m, total_size), st3)
      \<and> new_html = rewrite_html html m
      \<and> files st' = files st3 @ [(path_join OUTPUT_DIR ''index.html'', new_html)]
      \<and> console st' = console st3 @ [Rule_line, Summary_line (length m) total_size,
            Output_dir_line OUTPUT_DIR, Saved_line (path_join OUTPUT_DIR ''index.html'')]"
proof -
  from assms obtain html where h: "html_file w = Inr html"
    by (auto simp: main_def split: sum.splits)
  define st1 where "st1 = print_line st (Found_line (card (extract_cdn_urls html)))"
  from assms h obtain st2 where m2: "makedirs w st1 OUTPUT_DIR = Inr st2"
    by (auto simp: main_def Let_def st1_def split: sum.splits)
  then have f2: "files st2 = files st"
    by (auto simp: makedirs_def st1_def print_line_def split: option.splits)
  obtain r st3 where dl:
    "download_loop w (sorted_list_of_set (extract_cdn_urls html)) ([], 0, st2) = (r, st3)"
    by (cases "download_loop w (sorted_list_of_set (extract_cdn_urls html)) ([], 0, st2)")
  from assms h m2 dl obtain m0 t0 where r: "r = Inr (m0, t0)"
    by (cases r) (auto simp: main_def Let_def st1_def [symmetric])
  from assms h m2 dl r obtain st4 where
    w4: "write_file w st3 (path_join OUTPUT_DIR ''index.html'') (rewrite_html html m0) = Inr st4"
    by (auto simp: main_def Let_def st1_def [symmetric] split: sum.splits)
  from assms h m2 dl r w4 have e: "m0 = m" "t0 = total_size" "new_html = rewrite_html html m"
    "st' = print_line (print_line (print_line (print_line st4 Rule_line)
              (Summary_line (length m) total_size)) (Output_dir_line OUTPUT_DIR))
              (Saved_line (path_join OUTPUT_DIR ''index.html''))"
    by (auto simp: main_def Let_def st1_def [symmetric])
  from w4 e have f4: "files st4 = files st3 @ [(path_join OUTPUT_DIR ''index.html'', new_html)]"
    "console st4 = console st3"
    by (auto simp: write_file_def split: option.splits)
  from e(4) f4 have "files st' = files st3 @ [(path_join OUTPUT_DIR ''index.html'', new_html)]"
    "console st' = console st3 @ [Rule_line, Summary_line (length m) total_size,
            Output_dir_line OUTPUT_DIR, Saved_line (path_join OUTPUT_DIR ''index.html'')]"
    by (simp_all add: print_line_def)
  with h f2 dl r e show ?thesis by blast
qed

section \<open>Evaluating sample runs\<close>

lemma sorted_urls_code:
  "sorted_list_of_set (extract_cdn_urls html)
   = sort (remdups (findall primary_host html @ findall secondary_host html))"
  unfolding extract_cdn_urls_def set_append [symmetric] by (rule sorted_list_of_set_sort_remdups)

lemma demo_findall_primary: "findall primary_host demo_html = [''https://cdn.prod.website-files.com/s/css/a.css'', ''https://cdn.prod.website-files.com/s/b.png'']"
  by (simp add: demo_html_def primary_host_def match_at_def url_stop_def py_space_def)

lemma demo_findall_secondary: "findall secondary_host demo_html = []"
  by (simp add: demo_html_def secondary_host_def match_at_def url_stop_def py_space_def)

lemma demo_sorted_urls: "sorted_list_of_set (extract_cdn_urls demo_html) = [''https://cdn.prod.website-files.com/s/b.png'', ''https://cdn.prod.website-files.com/s/css/a.css'']"
  unfolding sorted_urls_code demo_findall_primary demo_findall_secondary by (simp add: less_eq_char_def less_char_def)

lemma card_extract:
  "card (extract_cdn_urls html) = length (sorted_list_of_set (extract_cdn_urls html))"
  by simp

lemmas run_defs = main_def card_extract loop_step_def download_asset_def makedirs_def
  write_file_def path_join_def dirname_def OUTPUT_DIR_def print_line_def rewrite_html_def
  demo_world_def quiet_state_def Let_def

lemma demo_paths:
  "url_to_local_path lax_lib ''https://cdn.prod.website-files.com/s/b.png'' = Inr ''assets/images/b.png''"
  "url_to_local_path lax_lib ''https://cdn.prod.website-files.com/s/css/a.css'' = Inr ''assets/css/a.css''"
  by (simp_all add: urlparse_defs mapper_defs)

lemma demo_rewrite:
  "py_replace ''https://cdn.prod.website-files.com/s/css/a.css'' ''assets/css/a.css'' demo_html
   = demo_new_html"
  by (simp add: demo_html_def demo_new_html_def)

lemma demo_run:
  "main (demo_world (Inr demo_html) demo_get) quiet_state =
    (Inr ([(''https://cdn.prod.website-files.com/s/css/a.css'', ''assets/css/a.css'')], 4,
          demo_new_html),
     \<lparr>dirs = [''breathscape-site'', ''breathscape-site/assets/images'',
              ''breathscape-site/assets/css''],
      files = [(''breathscape-site/assets/css/a.css'', ''body''),
               (''breathscape-site/index.html'', demo_new_html)],
      requests = [''https://cdn.prod.website-files.com/s/b.png'',
                  ''https://cdn.prod.website-files.com/s/css/a.css''],
      console = [Found_line 2,
                 Failed_line ''https://cdn.prod.website-files.com/s/b.png'' ''404 Client Error'',
                 Ok_line ''assets/css/a.css'' 4, Rule_line, Summary_line 1 4,
                 Output_dir_line ''breathscape-site'',
                 Saved_line ''breathscape-site/index.html'']\<rparr>)"
  by (simp add: run_defs demo_sorted_urls demo_paths demo_get_def dict_set_def demo_rewrite)

lemma demo_prefix_run:
  "download_loop (demo_world (Inr demo_html) (\<lambda>_. Inr ''body''))
     (take 1 [''https://cdn.prod.website-files.com/s/b.png'',
              ''https://cdn.prod.website-files.com/s/css/a.css''])
     ([], 0, quiet_state)
   = (Inr ([(''https://cdn.prod.website-files.com/s/b.png'', ''assets/images/b.png'')], 4),
      \<lparr>dirs = [''breathscape-site/assets/images''],
       files = [(''breathscape-site/assets/images/b.png'', ''body'')],
       requests = [''https://cdn.prod.website-files.com/s/b.png''],
       console = [Ok_line ''assets/images/b.png'' 4]\<rparr>)"
  by (simp add: run_defs demo_paths dict_set_def)

section \<open>The driver: fatal errors, the mapping and the summary\<close>

text \<open>
  Claim C9. If opening or reading the input HTML file fails, the run ends with that error
  and the state it started in: nothing was printed, no directory was made, no URL was
  requested and no file was written.
\<close>

theorem fatal_read_error:
  assumes "html_file w = Inl e"
  shows "main w st = (Inl e, st)"
  using assms by (simp add: main_def)

theorem fatal_read_error_witness:
  "main (demo_world (Inl (OSError ''No such file or directory'')) (\<lambda>_. Inr ''x'')) quiet_state
   = (Inl (OSError ''No such file or directory''), quiet_state)"
  by (rule fatal_read_error) (simp add: demo_world_def)

text \<open>
  Claim C7. At every point of the download loop, that is after any number \<open>k\<close> of the
  sorted URLs has been processed: the keys of the mapping are distinct; every key is an
  extracted URL that has been processed, whose request was answered with a body that was
  written under its local path; every value is the path mapper's result for its key; and
  the next iteration either leaves the mapping as it is or appends one entry for the URL
  it processes, a key that was not present before. So entries are inserted only.
\<close>

theorem mapping_invariant:
  assumes "urls = sorted_list_of_set (extract_cdn_urls html)"
    and "k \<le> length urls"
    and "download_loop w (take k urls) ([], 0, st0) = (Inr (m, total_size), st)"
  shows "distinct (map fst m)
     \<and> (\<forall>(u, p) \<in> set m. u \<in> extract_cdn_urls html \<and> u \<in> set (take k urls)
            \<and> url_to_local_path (library w) u = Inr p
            \<and> (\<exists>c. http_get w u = Inr c \<and> (path_join OUTPUT_DIR p, c) \<in> set (files st)))
     \<and> (\<forall>m' total_size' st'.
            k < length urls
            \<and> download_loop w (take (Suc k) urls) ([], 0, st0) = (Inr (m', total_size'), st')
            \<longrightarrow> m' = m \<or> (\<exists>p. m' = m @ [(urls ! k, p)] \<and> urls ! k \<notin> fst ` set m))"
proof -
  have du: "distinct urls" and su: "set urls = extract_cdn_urls html"
    using assms(1) finite_extract by simp_all
  have dk: "distinct (take k urls)" using du by simp
  from download_loop_trace [OF assms(3) dk] obtain ok where
    ok: "m = map ok_entry ok" "files st = files st0 @ map ok_write ok"
        "subseq (map fst ok) (take k urls)" "list_all (ok_good w) ok"
    by auto
  have keys: "map fst m = map fst ok" using ok(1) by (induction ok arbitrary: m) (auto simp: ok_entry_def)
  have 1: "distinct (map fst m)" using keys subseq_distinct_mono [OF ok(3) dk] by simp
  have keys_sub: "fst ` set m \<subseteq> set (take k urls)"
    using keys subseq_set_mono [OF ok(3)] by (metis set_map)
  have 2: "\<forall>(u, p) \<in> set m. u \<in> extract_cdn_urls html \<and> u \<in> set (take k urls)
            \<and> url_to_local_path (library w) u = Inr p
            \<and> (\<exists>c. http_get w u = Inr c \<and> (path_join OUTPUT_DIR p, c) \<in> set (files st))"
  proof (clarify)
    fix u p assume up: "(u, p) \<in> set m"
    then obtain c where c: "(u, p, c) \<in> set ok" using ok(1) by (auto simp: ok_entry_def)
    then have g: "url_to_local_path (library w) u = Inr p" "http_get w u = Inr c"
      using ok(4) by (auto simp: list_all_iff ok_good_def)
    have "(path_join OUTPUT_DIR p, c) \<in> set (files st)"
      using c ok(2) by (force simp: ok_write_def)
    moreover have "u \<in> set (take k urls)" using up keys_sub by force
    moreover then have "u \<in> extract_cdn_urls html" using su in_set_takeD [of u k urls] by blast
    ultimately show "u \<in> extract_cdn_urls html \<and> u \<in> set (take k urls)
            \<and> url_to_local_path (library w) u = Inr p
            \<and> (\<exists>c. http_get w u = Inr c \<and> (path_join OUTPUT_DIR p, c) \<in> set (files st))"
      using g by blast
  qed
  have 3: "m' = m \<or> (\<exists>p. m' = m @ [(urls ! k, p)] \<and> urls ! k \<notin> fst ` set m)"
    if k: "k < length urls"
      and nx: "download_loop w (take (Suc k) urls) ([], 0, st0) = (Inr (m', total_size'), st')"
    for m' total_size' st'
  proof -
    have tk: "take (Suc k) urls = take k urls @ [urls ! k]" using k by (rule take_Suc_conv_app_nth)
    from nx have "download_loop w [urls ! k] (m, total_size, st) = (Inr (m', total_size'), st')"
      unfolding tk download_loop_append assms(3) by simp
    then have step: "loop_step w (urls ! k) (m, total_size, st) = (Inr (m', total_size'), st')"
      by (auto split: prod.splits sum.splits)
    have nin: "urls ! k \<notin> fst ` set m"
    proof
      assume "urls ! k \<in> fst ` set m"
      then have "urls ! k \<in> set (take k urls)" using keys_sub by blast
      then obtain i where "i < k" "urls ! i = urls ! k"
        using k by (auto simp: in_set_conv_nth)
      then show False using du k by (simp add: nth_eq_iff_index_eq)
    qed
    from loop_step_cases [OF step] nin show ?thesis by (auto simp: dict_set_new)
  qed
  from 1 2 3 show ?thesis by blast
qed

theorem mapping_invariant_witness:
  "distinct (map fst [(''https://cdn.prod.website-files.com/s/b.png'', ''assets/images/b.png'')])
   \<and> ''https://cdn.prod.website-files.com/s/b.png'' \<in> extract_cdn_urls demo_html
   \<and> url_to_local_path lax_lib ''https://cdn.prod.website-files.com/s/b.png''
       = Inr ''assets/images/b.png''
   \<and> (\<exists>p. [(''https://cdn.prod.website-files.com/s/b.png'', ''assets/images/b.png''),
             (''https://cdn.prod.website-files.com/s/css/a.css'', ''assets/css/a.css'')]
            = [(''https://cdn.prod.website-files.com/s/b.png'', ''assets/images/b.png'')]
              @ [(''https://cdn.prod.website-files.com/s/css/a.css'', p)])"
proof -
  have k: "1 \<le> length [''https://cdn.prod.website-files.com/s/b.png'',
                        ''https://cdn.prod.website-files.com/s/css/a.css'']" by simp
  have b: "library (demo_world (Inr demo_html) (\<lambda>_. Inr ''body'')) = lax_lib"
    by (simp add: demo_world_def)
  have next_run:
    "download_loop (demo_world (Inr demo_html) (\<lambda>_. Inr ''body''))
       (take (Suc 1) [''https://cdn.prod.website-files.com/s/b.png'',
                      ''https://cdn.prod.website-files.com/s/css/a.css''])
       ([], 0, quiet_state)
     = (Inr ([(''https://cdn.prod.website-files.com/s/b.png'', ''assets/images/b.png''),
              (''https://cdn.prod.website-files.com/s/css/a.css'', ''assets/css/a.css'')], 8),
        \<lparr>dirs = [''breathscape-site/assets/images'', ''breathscape-site/assets/css''],
         files = [(''breathscape-site/assets/images/b.png'', ''body''),
                  (''breathscape-site/assets/css/a.css'', ''body'')],
         requests = [''https://cdn.prod.website-files.com/s/b.png'',
                     ''https://cdn.prod.website-files.com/s/css/a.css''],
         console = [Ok_line ''assets/images/b.png'' 4, Ok_line ''assets/css/a.css'' 4]\<rparr>)"
    by (simp add: run_defs demo_paths dict_set_def)
  from mapping_invariant [OF demo_sorted_urls [symmetric] k demo_prefix_run]
  show ?thesis unfolding b using next_run by auto
qed

text \<open>
  Claim C8. When the run completes, the files written by it are the bodies of the
  successful downloads, one per mapping entry and in the order of the mapping, followed
  by the rewritten page; the reported total is the sum of the lengths of those bodies and
  the reported count is the number of mapping entries, and both are printed in the
  summary line.
\<close>

theorem summary_accuracy:
  assumes "main w st = (Inr (m, total_size, new_html), st')"
  shows "\<exists>ws. files st' = files st @ ws @ [(path_join OUTPUT_DIR ''index.html'', new_html)]
           \<and> total_size = sum_list (map (\<lambda>(p, c). length c) ws)
           \<and> map fst ws = map (\<lambda>(u, p). path_join OUTPUT_DIR p) m
           \<and> length m = length ws
           \<and> Summary_line (length m) total_size \<in> set (console st')"
proof -
  from main_completed [OF assms] obtain html st2 st3 where
    h: "files st2 = files st"
      "download_loop w (sorted_list_of_set (extract_cdn_urls html)) ([], 0, st2)
          = (Inr (m, total_size), st3)"
      "files st' = files st3 @ [(path_join OUTPUT_DIR ''index.html'', new_html)]"
      "console st' = console st3 @ [Rule_line, Summary_line (length m) total_size,
            Output_dir_line OUTPUT_DIR, Saved_line (path_join OUTPUT_DIR ''index.html'')]"
    by blast
  have "distinct (sorted_list_of_set (extract_cdn_urls html))" by simp
  from download_loop_trace [OF h(2) this] obtain ok where
    ok: "m = map ok_entry ok" "files st3 = files st2 @ map ok_write ok"
        "total_size = sum_list (map ok_size ok)"
    by auto
  have 1: "sum_list (map ok_size ok) = sum_list (map (\<lambda>(p, c). length c) (map ok_write ok))"
    by (induction ok) (auto simp: ok_size_def ok_write_def)
  have 2: "map fst (map ok_write ok) = map (\<lambda>(u, p). path_join OUTPUT_DIR p) (map ok_entry ok)"
    by (induction ok) (auto simp: ok_entry_def ok_write_def)
  show ?thesis
    apply (rule exI [of _ "map ok_write ok"])
    using h ok 1 2 by simp
qed

theorem summary_accuracy_witness:
  "\<exists>ws. [(''breathscape-site/assets/css/a.css'', ''body''),
          (''breathscape-site/index.html'', demo_new_html)]
         = ws @ [(''breathscape-site/index.html'', demo_new_html)]
       \<and> (4::nat) = sum_list (map (\<lambda>(p, c). length c) ws)
       \<and> map fst ws = [''breathscape-site/assets/css/a.css'']"
  using summary_accuracy [OF demo_run]
  by (simp add: quiet_state_def path_join_def OUTPUT_DIR_def)

end
